theory Spec2Isabelle
  imports Main
begin

section \<open>Strings: decimal numerals, padding, the reference pattern\<close>

text \<open>
  \<^verbatim>\<open>String(n)\<close> of a JavaScript integer is its decimal numeral, with a leading minus sign
  for a negative number. Counters are modelled as unbounded integers: a JavaScript Number
  is exact on every integer of magnitude below \<open>2^53\<close>, far beyond what a counter advanced
  by one per request reaches.
\<close>

definition digit_char :: "nat \<Rightarrow> char" where
  "digit_char d = ''0123456789'' ! (d mod 10)"

fun nat_dec :: "nat \<Rightarrow> string" where
  "nat_dec n = (if n < 10 then [digit_char n] else nat_dec (n div 10) @ [digit_char (n mod 10)])"

declare nat_dec.simps [simp del]

definition js_String :: "int \<Rightarrow> string" where
  "js_String i = (if i < 0 then CHR ''-'' # nat_dec (nat (- i)) else nat_dec (nat i))"

text \<open>\<^verbatim>\<open>s.padStart(n, c)\<close> for a one-character pad string: pads on the left up to length
  \<open>n\<close> and never truncates.\<close>

definition padStart :: "nat \<Rightarrow> char \<Rightarrow> string \<Rightarrow> string" where
  "padStart n c s = replicate (n - length s) c @ s"

definition is_digit :: "char \<Rightarrow> bool" where
  "is_digit c = (c \<in> set ''0123456789'')"

definition digit_val :: "char \<Rightarrow> nat" where
  "digit_val c = of_char c - 48"

text \<open>The value of a string of decimal digits, and the part of a reference number before
  its first slash.\<close>

definition dec_value :: "string \<Rightarrow> nat" where
  "dec_value s = foldl (\<lambda>a c. 10 * a + digit_val c) 0 s"

definition count_portion :: "string \<Rightarrow> string" where
  "count_portion s = takeWhile (\<lambda>c. c \<noteq> CHR ''/'') s"

text \<open>A matcher for the regular expression \<^verbatim>\<open>\d{3}/\d{2}/\d{4}\<close>, anchored at both ends:
  each piece consumes a prefix of the input and hands on the rest.\<close>

fun digits :: "nat \<Rightarrow> string \<Rightarrow> string option" where
  "digits 0 s = Some s"
| "digits (Suc n) [] = None"
| "digits (Suc n) (c # s) = (if is_digit c then digits n s else None)"

fun lit :: "char \<Rightarrow> string \<Rightarrow> string option" where
  "lit c [] = None"
| "lit c (d # s) = (if c = d then Some s else None)"

definition matches_reference_pattern :: "string \<Rightarrow> bool" where
  "matches_reference_pattern s =
     (case digits 3 s of None \<Rightarrow> False | Some s1 \<Rightarrow>
      case lit (CHR ''/'') s1 of None \<Rightarrow> False | Some s2 \<Rightarrow>
      case digits 2 s2 of None \<Rightarrow> False | Some s3 \<Rightarrow>
      case lit (CHR ''/'') s3 of None \<Rightarrow> False | Some s4 \<Rightarrow>
      digits 4 s4 = Some [])"


section \<open>The store: documents and collections\<close>

text \<open>
  The four Mongoose models of \<^verbatim>\<open>server.js\<close>. A collection is the list of its documents in
  insertion order. An ObjectId is kept as its hexadecimal text. Dates are milliseconds
  since the epoch.
\<close>

type_synonym objectId = string

record reference =
  count :: int

record visitor =
  v_count :: int
  lastUpdated :: int

text \<open>A path of a document, or a key of a JSON request body, whose schema type is \<open>'a\<close>:
  absent (\<^verbatim>\<open>undefined\<close>), an explicit \<^verbatim>\<open>null\<close>, or a value of the type.\<close>

datatype 'a jfield = Absent | Null | Value 'a

text \<open>\<^verbatim>\<open>jobSchema\<close>: every path but \<^verbatim>\<open>_id\<close> may be absent from a document, or null.\<close>

record job =
  job_id :: objectId
  title :: "string jfield"
  description :: "string jfield"
  location :: "string jfield"
  datePosted :: "int jfield"
  icon :: "string jfield"

record user =
  username :: string
  password :: string

record db =
  references :: "reference list"
  visitors :: "visitor list"
  jobs :: "job list"
  users :: "user list"

definition empty_db :: db where
  "empty_db = \<lparr>references = [], visitors = [], jobs = [], users = []\<rparr>"

text \<open>\<^verbatim>\<open>Model.findOne()\<close> without a filter returns the first document of the collection,
  or null. \<^verbatim>\<open>doc.save()\<close> inserts a new document and writes back one that was read.\<close>

definition findOne :: "'a list \<Rightarrow> 'a option" where
  "findOne c = (case c of [] \<Rightarrow> None | d # _ \<Rightarrow> Some d)"

definition save_new :: "'a \<Rightarrow> 'a list \<Rightarrow> 'a list" where
  "save_new d c = c @ [d]"

definition save_found :: "'a \<Rightarrow> 'a list \<Rightarrow> 'a list" where
  "save_found d c = (case c of [] \<Rightarrow> [] | _ # ds \<Rightarrow> d # ds)"

fun findById :: "objectId \<Rightarrow> job list \<Rightarrow> job option" where
  "findById i [] = None"
| "findById i (j # js) = (if job_id j = i then Some j else findById i js)"

fun replaceById :: "objectId \<Rightarrow> job \<Rightarrow> job list \<Rightarrow> job list" where
  "replaceById i j' [] = []"
| "replaceById i j' (j # js) = (if job_id j = i then j' # js else j # replaceById i j' js)"

fun deleteById :: "objectId \<Rightarrow> job list \<Rightarrow> job list" where
  "deleteById i [] = []"
| "deleteById i (j # js) = (if job_id j = i then js else j # deleteById i js)"

fun findByUsername :: "string \<Rightarrow> user list \<Rightarrow> user option" where
  "findByUsername n [] = None"
| "findByUsername n (u # us) = (if username u = n then Some u else findByUsername n us)"

section \<open>Requests, responses and the environment of a request\<close>

text \<open>
  What the outside world contributes to one request: the clock (one instant per request,
  with its local calendar month and year), whether the store serves the request's
  operations or rejects them, the ObjectId the driver generates for a new document, and
  the salt bcrypt draws.
\<close>

record env =
  now :: int
  month :: nat
  fullYear :: int
  storeUp :: bool
  newId :: objectId
  salt :: string

text \<open>The bcrypt library on strings: \<^verbatim>\<open>hash\<close> takes the salt and the data, \<^verbatim>\<open>compare\<close> the
  data and a stored digest.\<close>

record bcrypt =
  hash :: "string \<Rightarrow> string \<Rightarrow> string"
  compare :: "string \<Rightarrow> string \<Rightarrow> bool"

text \<open>The body of \<^verbatim>\<open>POST /api/jobs\<close> and \<^verbatim>\<open>PUT /api/jobs/:id\<close>: each job field is absent
  from the body, null, or a value.\<close>

record job_payload =
  p_title :: "string jfield"
  p_description :: "string jfield"
  p_location :: "string jfield"
  p_datePosted :: "int jfield"
  p_icon :: "string jfield"

text \<open>What \<^verbatim>\<open>req.body.password\<close> may be: \<^verbatim>\<open>undefined\<close> when the body has no such key, null,
  a string, or any other JSON value (a number, a boolean, an array, an object).\<close>

datatype jvalue = Undefined | JNull | JString string | JOther

record credentials =
  req_username :: string
  req_password :: jvalue

text \<open>\<^verbatim>\<open>bcrypt.hash(data, 8)\<close> and \<^verbatim>\<open>bcrypt.compare(data, digest)\<close> check their arguments:
  the promise is rejected (here \<open>None\<close>) unless the data is a string.\<close>

definition bcrypt_hash :: "bcrypt \<Rightarrow> string \<Rightarrow> jvalue \<Rightarrow> string option" where
  "bcrypt_hash lib sl d = (case d of JString p \<Rightarrow> Some (hash lib sl p) | _ \<Rightarrow> None)"

definition bcrypt_compare :: "bcrypt \<Rightarrow> jvalue \<Rightarrow> string \<Rightarrow> bool option" where
  "bcrypt_compare lib d h = (case d of JString p \<Rightarrow> Some (compare lib p h) | _ \<Rightarrow> None)"

text \<open>\<^verbatim>\<open>req.params.id\<close> is a string. Mongoose casts it to an ObjectId when it builds the
  query, and rejects the query with a CastError when the string does not denote one.\<close>

datatype id_param = ObjectId objectId | Malformed string

datatype body =
    ErrorBody string
  | MessageBody string
  | ReferenceBody string
  | JobBody job
  | JobsBody "job list"
  | NullBody
  | LoginBody string string
  | VisitorBody int

datatype response = Response (status: nat) (body: body)

datatype request =
    PostReference
  | PostJob job_payload
  | GetJobs
  | PutJob id_param job_payload
  | DeleteJob id_param
  | PostRegister credentials
  | PostLogin credentials
  | GetVisitorCount

section \<open>The reference-number generator\<close>

text \<open>\<^verbatim>\<open>toLocaleString("en-US", {month: "2-digit"})\<close> of a date in month \<open>m\<close> (1 to 12).\<close>

definition toLocaleString_month :: "nat \<Rightarrow> string" where
  "toLocaleString_month m = padStart 2 (CHR ''0'') (nat_dec m)"

definition getNextReferenceNumber :: "env \<Rightarrow> db \<Rightarrow> (string + string) \<times> db" where
  "getNextReferenceNumber e s =
     (if \<not> storeUp e then (Inl ''Could not generate reference number'', s)
      else
        let found = findOne (references s);
            reference = (case found of
                           None \<Rightarrow> \<lparr>count = 1\<rparr>
                         | Some r \<Rightarrow> r\<lparr>count := count r + 1\<rparr>);
            s' = s\<lparr>references :=
                     (case found of
                        None \<Rightarrow> save_new reference (references s)
                      | Some _ \<Rightarrow> save_found reference (references s))\<rparr>;
            currentMonth = toLocaleString_month (month e);
            currentYear = fullYear e;
            formattedCount = padStart 3 (CHR ''0'') (js_String (count reference))
        in (Inr (formattedCount @ ''/'' @ currentMonth @ ''/'' @ js_String currentYear), s'))"

definition post_reference :: "env \<Rightarrow> db \<Rightarrow> response \<times> db" where
  "post_reference e s =
     (case getNextReferenceNumber e s of
        (Inr referenceNumber, s') \<Rightarrow> (Response 200 (ReferenceBody referenceNumber), s')
      | (Inl _, s') \<Rightarrow> (Response 500 (ErrorBody ''Error generating reference number''), s'))"

section \<open>The job routes\<close>

text \<open>\<^verbatim>\<open>new Job(req.body)\<close>: the payload's fields, a generated \<^verbatim>\<open>_id\<close>, and the schema's
  default for \<^verbatim>\<open>datePosted\<close>. Mongoose applies a default to a path that is
  \<^verbatim>\<open>undefined\<close> only: an explicit null stays null.\<close>

definition new_Job :: "env \<Rightarrow> job_payload \<Rightarrow> job" where
  "new_Job e p =
     \<lparr>job_id = newId e,
      title = p_title p,
      description = p_description p,
      location = p_location p,
      datePosted = (case p_datePosted p of
                      Absent \<Rightarrow> Value (now e)
                    | Null \<Rightarrow> Null
                    | Value d \<Rightarrow> Value d),
      icon = p_icon p\<rparr>"

text \<open>The store rejects an insert whose \<^verbatim>\<open>_id\<close> is already in the collection.\<close>

definition post_job :: "env \<Rightarrow> job_payload \<Rightarrow> db \<Rightarrow> response \<times> db" where
  "post_job e p s =
     (let newJob = new_Job e p in
      if \<not> storeUp e \<or> job_id newJob \<in> set (map job_id (jobs s))
      then (Response 500 (ErrorBody ''Error saving job''), s)
      else (Response 201 (JobBody newJob), s\<lparr>jobs := save_new newJob (jobs s)\<rparr>))"

definition get_jobs :: "env \<Rightarrow> db \<Rightarrow> response \<times> db" where
  "get_jobs e s =
     (if \<not> storeUp e then (Response 500 (ErrorBody ''Error fetching jobs''), s)
      else (Response 200 (JobsBody (jobs s)), s))"

text \<open>An update document without operators is applied as \<^verbatim>\<open>$set\<close> of the keys it has; a
  key with value null sets the path to null.\<close>

definition set_path :: "'a jfield \<Rightarrow> 'a jfield \<Rightarrow> 'a jfield" where
  "set_path supplied old = (case supplied of Absent \<Rightarrow> old | Null \<Rightarrow> Null | Value v \<Rightarrow> Value v)"

definition apply_set :: "job_payload \<Rightarrow> job \<Rightarrow> job" where
  "apply_set p j =
     j\<lparr>title := set_path (p_title p) (title j),
       description := set_path (p_description p) (description j),
       location := set_path (p_location p) (location j),
       datePosted := set_path (p_datePosted p) (datePosted j),
       icon := set_path (p_icon p) (icon j)\<rparr>"

definition put_job :: "env \<Rightarrow> id_param \<Rightarrow> job_payload \<Rightarrow> db \<Rightarrow> response \<times> db" where
  "put_job e idp p s =
     (if \<not> storeUp e then (Response 500 (ErrorBody ''Error updating job''), s)
      else case idp of
        Malformed _ \<Rightarrow> (Response 500 (ErrorBody ''Error updating job''), s)
      | ObjectId i \<Rightarrow>
          (case findById i (jobs s) of
             None \<Rightarrow> (Response 200 NullBody, s)
           | Some j \<Rightarrow>
               let updatedJob = apply_set p j
               in (Response 200 (JobBody updatedJob),
                   s\<lparr>jobs := replaceById i updatedJob (jobs s)\<rparr>)))"

definition delete_job :: "env \<Rightarrow> id_param \<Rightarrow> db \<Rightarrow> response \<times> db" where
  "delete_job e idp s =
     (if \<not> storeUp e then (Response 500 (ErrorBody ''Error deleting job''), s)
      else case idp of
        Malformed _ \<Rightarrow> (Response 500 (ErrorBody ''Error deleting job''), s)
      | ObjectId i \<Rightarrow>
          (Response 200 (MessageBody ''Job deleted''), s\<lparr>jobs := deleteById i (jobs s)\<rparr>))"

section \<open>Registration and login\<close>

text \<open>\<^verbatim>\<open>userSchema\<close>: both paths are required (for a string: present and not empty), and
  \<^verbatim>\<open>username\<close> carries a unique index, so the store rejects a second document with the
  same username. A rejected \<^verbatim>\<open>bcrypt.hash\<close> lands in the \<^verbatim>\<open>catch\<close> block like every other
  failure of the route.\<close>

definition register :: "bcrypt \<Rightarrow> env \<Rightarrow> credentials \<Rightarrow> db \<Rightarrow> response \<times> db" where
  "register lib e c s =
     (case bcrypt_hash lib (salt e) (req_password c) of
        None \<Rightarrow> (Response 500 (ErrorBody ''Error registering user''), s)
      | Some hashedPassword \<Rightarrow>
          let newUser = \<lparr>username = req_username c, password = hashedPassword\<rparr>
          in if \<not> storeUp e \<or> username newUser = [] \<or> password newUser = []
                \<or> username newUser \<in> set (map username (users s))
             then (Response 500 (ErrorBody ''Error registering user''), s)
             else (Response 201 (MessageBody ''User registered successfully''),
                   s\<lparr>users := save_new newUser (users s)\<rparr>))"

text \<open>In \<^verbatim>\<open>POST /api/login\<close> a rejected \<^verbatim>\<open>bcrypt.compare\<close> lands in the \<^verbatim>\<open>catch\<close> block,
  which answers 500; the lookup of an unknown username has answered 400 before the
  password is looked at.\<close>

definition login :: "bcrypt \<Rightarrow> env \<Rightarrow> credentials \<Rightarrow> db \<Rightarrow> response \<times> db" where
  "login lib e c s =
     (if \<not> storeUp e then (Response 500 (ErrorBody ''Error logging in''), s)
      else case findByUsername (req_username c) (users s) of
        None \<Rightarrow> (Response 400 (ErrorBody ''Invalid username or password''), s)
      | Some u \<Rightarrow>
          (case bcrypt_compare lib (req_password c) (password u) of
             None \<Rightarrow> (Response 500 (ErrorBody ''Error logging in''), s)
           | Some isPasswordValid \<Rightarrow>
               if \<not> isPasswordValid
               then (Response 400 (ErrorBody ''Invalid username or password''), s)
               else (Response 200 (LoginBody ''Login successful'' (username u)), s)))"

section \<open>The visitor counter\<close>

definition get_visitorCount :: "env \<Rightarrow> db \<Rightarrow> response \<times> db" where
  "get_visitorCount e s =
     (if \<not> storeUp e then (Response 500 (ErrorBody ''Internal server error''), s)
      else
        let (visitorData, s1) =
              (case findOne (visitors s) of
                 None \<Rightarrow>
                   (let v = \<lparr>v_count = 905, lastUpdated = now e\<rparr>
                    in (v, s\<lparr>visitors := save_new v (visitors s)\<rparr>))
               | Some v \<Rightarrow> (v, s));
            currentTime = now e;
            lastIncrementTime = lastUpdated visitorData
        in if currentTime - lastIncrementTime \<ge> 3600000
           then
             let visitorData' = visitorData\<lparr>v_count := v_count visitorData + 1,
                                            lastUpdated := now e\<rparr>
             in (Response 200 (VisitorBody (v_count visitorData')),
                 s1\<lparr>visitors := save_found visitorData' (visitors s1)\<rparr>)
           else (Response 200 (VisitorBody (v_count visitorData)), s1))"

text \<open>The earlier variant of the route keeps the counter in two variables of the
  process, \<^verbatim>\<open>visitorCount\<close> (initially 905) and \<^verbatim>\<open>lastIncrementTime\<close> (the start-up time).\<close>

record counter_vars =
  visitorCount :: int
  lastIncrementTime :: int

definition get_visitorCount_vars :: "int \<Rightarrow> counter_vars \<Rightarrow> int \<times> counter_vars" where
  "get_visitorCount_vars currentTime m =
     (let m' = (if currentTime - lastIncrementTime m \<ge> 3600000
                then m\<lparr>visitorCount := visitorCount m + 1, lastIncrementTime := currentTime\<rparr>
                else m)
      in (visitorCount m', m'))"

section \<open>The server\<close>

fun handle :: "bcrypt \<Rightarrow> env \<Rightarrow> request \<Rightarrow> db \<Rightarrow> response \<times> db" where
  "handle lib e PostReference s = post_reference e s"
| "handle lib e (PostJob p) s = post_job e p s"
| "handle lib e GetJobs s = get_jobs e s"
| "handle lib e (PutJob i p) s = put_job e i p s"
| "handle lib e (DeleteJob i) s = delete_job e i s"
| "handle lib e (PostRegister c) s = register lib e c s"
| "handle lib e (PostLogin c) s = login lib e c s"
| "handle lib e GetVisitorCount s = get_visitorCount e s"

text \<open>Requests are served one after the other; \<open>run\<close> returns the responses in order and
  the final store.\<close>

fun run :: "bcrypt \<Rightarrow> (env \<times> request) list \<Rightarrow> db \<Rightarrow> response list \<times> db" where
  "run lib [] s = ([], s)"
| "run lib ((e, r) # rs) s =
     (let (resp, s1) = handle lib e r s;
          (resps, s2) = run lib rs s1
      in (resp # resps, s2))"


section \<open>Notions used to state the properties\<close>

text \<open>The value of the reference counter: the count of the stored document, 0 while the
  collection is empty.\<close>

definition current_count :: "db \<Rightarrow> int" where
  "current_count s = (case findOne (references s) of None \<Rightarrow> 0 | Some r \<Rightarrow> count r)"

text \<open>The count portions of the reference numbers in a list of responses, read back as
  numbers, in the order of the responses.\<close>

fun reference_counts :: "response list \<Rightarrow> int list" where
  "reference_counts [] = []"
| "reference_counts (r # rs) =
     (case body r of
        ReferenceBody n \<Rightarrow> int (dec_value (count_portion n)) # reference_counts rs
      | _ \<Rightarrow> reference_counts rs)"

text \<open>A request that reaches the generator and whose store operations succeed.\<close>

definition generates :: "env \<times> request \<Rightarrow> bool" where
  "generates x = (snd x = PostReference \<and> storeUp (fst x))"

text \<open>The reference collection holds at most one document, and a stored count is at
  least 1.\<close>

definition reference_inv :: "db \<Rightarrow> bool" where
  "reference_inv s = (length (references s) \<le> 1 \<and> list_all (\<lambda>r. 1 \<le> count r) (references s))"

text \<open>The calendar of a request is well formed: a month of the year and a four-digit
  year.\<close>

definition calendar_ok :: "env \<Rightarrow> bool" where
  "calendar_ok e = (1 \<le> month e \<and> month e \<le> 12 \<and> 1000 \<le> fullYear e \<and> fullYear e \<le> 9999)"

text \<open>A read that resets \<^verbatim>\<open>lastUpdated\<close>: it creates the visitor document or increments its
  count. And a store whose \<^verbatim>\<open>lastUpdated\<close> is not later than the clock of a request.\<close>

definition resets :: "env \<Rightarrow> db \<Rightarrow> bool" where
  "resets e s = (case findOne (visitors s) of
                   None \<Rightarrow> True
                 | Some v \<Rightarrow> 3600000 \<le> now e - lastUpdated v)"

definition not_ahead :: "env \<Rightarrow> db \<Rightarrow> bool" where
  "not_ahead e s = (case findOne (visitors s) of
                      None \<Rightarrow> True
                    | Some v \<Rightarrow> lastUpdated v \<le> now e)"


text \<open>Sample inputs for the concrete instances below: a request environment, credentials,
  and a stand-in for bcrypt that marks the data instead of hashing it.\<close>

definition sample_env :: env where
  "sample_env = \<lparr>now = 1700000000000, month = 11, fullYear = 2023, storeUp = True,
                  newId = ''65526a1f9d3c2b0012345678'', salt = ''x''\<rparr>"

definition sample_bcrypt :: bcrypt where
  "sample_bcrypt = \<lparr>hash = (\<lambda>sl p. CHR ''$'' # p), compare = (\<lambda>p h. h = CHR ''$'' # p)\<rparr>"




definition alice :: credentials where
  "alice = \<lparr>req_username = ''alice'', req_password = JString ''secret''\<rparr>"

section \<open>Decimal numerals\<close>

lemma digit_char_cases:
  "d < 10 \<Longrightarrow> digit_char d \<in> set ''0123456789'' \<and> digit_val (digit_char d) = d"
proof -
  assume "d < 10"
  then have "d = 0 \<or> d = 1 \<or> d = 2 \<or> d = 3 \<or> d = 4 \<or> d = 5 \<or> d = 6 \<or> d = 7 \<or> d = 8 \<or> d = 9"
    by arith
  then show ?thesis
    by (elim disjE) (simp_all add: digit_char_def digit_val_def)
qed

lemma is_digit_digit_char: "is_digit (digit_char d)"
proof -
  have "digit_char d = digit_char (d mod 10)" by (simp add: digit_char_def)
  moreover have "is_digit (digit_char (d mod 10))"
    using digit_char_cases [of "d mod 10"] by (simp add: is_digit_def)
  ultimately show ?thesis by simp
qed

lemma is_digit_not_slash: "is_digit c \<Longrightarrow> c \<noteq> CHR ''/''"
  by (auto simp: is_digit_def)

lemma nat_dec_digits: "list_all is_digit (nat_dec n)"
proof (induction n rule: nat_dec.induct)
  case (1 n)
  show ?case
  proof (cases "n < 10")
    case True
    then show ?thesis by (simp add: nat_dec.simps [of n] is_digit_digit_char)
  next
    case False
    with 1 show ?thesis by (simp add: nat_dec.simps [of n] is_digit_digit_char)
  qed
qed

lemma dec_value_snoc: "dec_value (s @ [c]) = 10 * dec_value s + digit_val c"
  by (simp add: dec_value_def)

lemma dec_value_nat_dec: "dec_value (nat_dec n) = n"
proof (induction n rule: nat_dec.induct)
  case (1 n)
  show ?case
  proof (cases "n < 10")
    case True
    then show ?thesis
      using digit_char_cases [of n] by (simp add: nat_dec.simps [of n] dec_value_def)
  next
    case False
    have "digit_val (digit_char (n mod 10)) = n mod 10"
      using digit_char_cases [of "n mod 10"] by simp
    with False 1 show ?thesis
      by (simp add: nat_dec.simps [of n] dec_value_snoc)
  qed
qed

lemma dec_value_zeros: "dec_value (replicate k (CHR ''0'') @ s) = dec_value s"
proof -
  have "foldl (\<lambda>a c. 10 * a + digit_val c) 0 (replicate k (CHR ''0'')) = 0"
    by (induction k) (simp_all add: digit_val_def)
  then show ?thesis by (simp add: dec_value_def)
qed

lemma length_nat_dec_le: "0 < k \<Longrightarrow> n < 10 ^ k \<Longrightarrow> length (nat_dec n) \<le> k"
proof (induction n arbitrary: k rule: nat_dec.induct)
  case (1 n)
  show ?case
  proof (cases "n < 10")
    case True
    with 1 show ?thesis by (simp add: nat_dec.simps [of n])
  next
    case False
    with "1.prems" obtain k' where k: "k = Suc k'" "0 < k'"
      by (cases k; cases "k - 1") auto
    with "1.prems" have "n div 10 < 10 ^ k'"
      by (simp add: less_mult_imp_div_less mult.commute)
    with 1 False k have "length (nat_dec (n div 10)) \<le> k'" by blast
    with False k show ?thesis by (simp add: nat_dec.simps [of n])
  qed
qed

lemma length_nat_dec_gt: "10 ^ k \<le> n \<Longrightarrow> k < length (nat_dec n)"
proof (induction n arbitrary: k rule: nat_dec.induct)
  case (1 n)
  show ?case
  proof (cases "n < 10")
    case True
    have "k = 0"
    proof (rule ccontr)
      assume "k \<noteq> 0"
      then have "(10::nat) ^ 1 \<le> 10 ^ k" by (intro power_increasing) auto
      with "1.prems" True show False by simp
    qed
    then show ?thesis by (simp add: nat_dec.simps [of n] True)
  next
    case False
    show ?thesis
    proof (cases k)
      case 0
      then show ?thesis by (simp add: nat_dec.simps [of n] False)
    next
      case (Suc k')
      with "1.prems" have "10 ^ k' \<le> n div 10"
        by (simp add: less_eq_div_iff_mult_less_eq mult.commute)
      with 1 False have "k' < length (nat_dec (n div 10))" by blast
      with False Suc show ?thesis by (simp add: nat_dec.simps [of n])
    qed
  qed
qed


section \<open>Reference numbers\<close>

lemma count_portion_slash:
  "list_all is_digit a \<Longrightarrow> count_portion (a @ CHR ''/'' # rest) = a"
  unfolding count_portion_def
  by (induction a) (auto simp: is_digit_not_slash)

lemma is_digit_zero: "is_digit (CHR ''0'')"
  by (simp add: is_digit_def)

lemma list_all_pad: "list_all is_digit s \<Longrightarrow> list_all is_digit (padStart n (CHR ''0'') s)"
  by (auto simp: padStart_def list_all_iff is_digit_zero)

lemma count_of_formatted:
  "dec_value (count_portion (padStart 3 (CHR ''0'') (nat_dec n) @ CHR ''/'' # rest)) = n"
proof -
  have "list_all is_digit (padStart 3 (CHR ''0'') (nat_dec n))"
    by (rule list_all_pad) (rule nat_dec_digits)
  then have "count_portion (padStart 3 (CHR ''0'') (nat_dec n) @ CHR ''/'' # rest)
             = padStart 3 (CHR ''0'') (nat_dec n)"
    by (rule count_portion_slash)
  then show ?thesis
    by (simp add: padStart_def dec_value_zeros dec_value_nat_dec)
qed

lemma post_reference_down:
  "\<not> storeUp e \<Longrightarrow>
   post_reference e s = (Response 500 (ErrorBody ''Error generating reference number''), s)"
  by (simp add: post_reference_def getNextReferenceNumber_def)

lemma post_reference_up:
  assumes "storeUp e"
  shows "\<exists>s'. post_reference e s =
           (Response 200 (ReferenceBody (padStart 3 (CHR ''0'') (js_String (current_count s + 1))
              @ ''/'' @ toLocaleString_month (month e) @ ''/'' @ js_String (fullYear e))), s')
         \<and> references s' = (case references s of [] \<Rightarrow> [\<lparr>count = 1\<rparr>]
                                   | r # rs \<Rightarrow> r\<lparr>count := count r + 1\<rparr> # rs)
         \<and> visitors s' = visitors s \<and> jobs s' = jobs s \<and> users s' = users s"
  using assms
  by (cases "references s")
     (simp_all add: post_reference_def getNextReferenceNumber_def current_count_def findOne_def
        save_new_def save_found_def Let_def)

lemma current_count_step:
  "references s' = (case references s of [] \<Rightarrow> [\<lparr>count = 1\<rparr>] | r # rs \<Rightarrow> r\<lparr>count := count r + 1\<rparr> # rs)
   \<Longrightarrow> current_count s' = current_count s + 1"
  by (cases "references s") (simp_all add: current_count_def findOne_def)

lemma other_routes_references:
  assumes "r \<noteq> PostReference" and "handle lib e r s = (resp, s')"
  shows "references s' = references s \<and> (\<forall>n. body resp \<noteq> ReferenceBody n)"
  using assms
  by (cases r)
     (auto simp: post_job_def get_jobs_def put_job_def delete_job_def register_def login_def
        get_visitorCount_def Let_def findOne_def
        split: if_splits option.splits id_param.splits prod.splits)

lemma run_reference_counts:
  assumes "0 \<le> current_count s" and "run lib rs s = (resps, s')"
  shows "reference_counts resps
           = [current_count s + 1 .. current_count s + int (length (filter generates rs))]
         \<and> current_count s' = current_count s + int (length (filter generates rs))"
  using assms
proof (induction rs arbitrary: s resps)
  case Nil
  then show ?case by simp
next
  case (Cons x rs)
  obtain e r where x: "x = (e, r)" by (cases x)
  obtain resp s1 where h: "handle lib e r s = (resp, s1)" by (cases "handle lib e r s")
  obtain resps1 s2 where t: "run lib rs s1 = (resps1, s2)" by (cases "run lib rs s1")
  from Cons.prems x h t have res: "resps = resp # resps1" "s' = s2" by simp_all
  from t res have t': "run lib rs s1 = (resps1, s')" by simp
  show ?case
  proof (cases "generates x")
    case True
    with x have r: "r = PostReference" and up: "storeUp e" by (simp_all add: generates_def)
    from post_reference_up [OF up, of s] h r
    have resp: "resp = Response 200 (ReferenceBody
                  (padStart 3 (CHR ''0'') (js_String (current_count s + 1))
                   @ ''/'' @ toLocaleString_month (month e) @ ''/'' @ js_String (fullYear e)))"
      and c1: "current_count s1 = current_count s + 1"
      by (auto dest: current_count_step)
    from Cons.prems have "js_String (current_count s + 1) = nat_dec (nat (current_count s + 1))"
      by (simp add: js_String_def)
    with resp have cnt: "reference_counts [resp] = [current_count s + 1]"
      using Cons.prems(1) by (simp add: count_of_formatted)
    from c1 Cons.prems have "0 \<le> current_count s1" by simp
    from Cons.IH [OF this t'] have
      ih: "reference_counts resps1
             = [current_count s1 + 1 .. current_count s1 + int (length (filter generates rs))]"
      and ih2: "current_count s' = current_count s1 + int (length (filter generates rs))"
      by simp_all
    have "[current_count s + 1 .. current_count s + int (length (filter generates (x # rs)))]
          = (current_count s + 1)
            # [current_count s1 + 1 .. current_count s1 + int (length (filter generates rs))]"
      using True c1 by (simp add: upto_rec1 [of "current_count s + 1"] add.assoc)
    with cnt ih ih2 c1 res True show ?thesis by (simp add: resp)
  next
    case False
    have same: "references s1 = references s \<and> (\<forall>n. body resp \<noteq> ReferenceBody n)"
    proof (cases "r = PostReference")
      case True
      with False x have "\<not> storeUp e" by (simp add: generates_def)
      from post_reference_down [OF this, of s] h True show ?thesis by auto
    next
      case False
      from other_routes_references [OF this h] show ?thesis .
    qed
    then have c1: "current_count s1 = current_count s" by (simp add: current_count_def)
    with Cons.prems have "0 \<le> current_count s1" by simp
    from Cons.IH [OF this t'] c1 have
      "reference_counts resps1
         = [current_count s + 1 .. current_count s + int (length (filter generates rs))]"
      and "current_count s' = current_count s + int (length (filter generates rs))"
      by simp_all
    moreover from same have "reference_counts (resp # resps1) = reference_counts resps1"
      by (cases "body resp") simp_all
    ultimately show ?thesis using res False by simp
  qed
qed

lemma digits_prefix:
  "list_all is_digit a \<Longrightarrow> n \<le> length a \<Longrightarrow> digits n (a @ rest) = Some (drop n a @ rest)"
proof (induction n arbitrary: a)
  case 0
  then show ?case by simp
next
  case (Suc n)
  then show ?case by (cases a) simp_all
qed

lemma digits_short:
  "list_all is_digit a \<Longrightarrow> length a < n \<Longrightarrow> digits n (a @ CHR ''/'' # rest) = None"
proof (induction n arbitrary: a)
  case 0
  then show ?case by simp
next
  case (Suc n)
  then show ?case by (cases a) (simp_all add: is_digit_def)
qed

lemma lit_slash_digit: "list_all is_digit a \<Longrightarrow> a \<noteq> [] \<Longrightarrow> lit (CHR ''/'') (a @ rest) = None"
  by (cases a) (auto dest: is_digit_not_slash)

lemma matches_iff:
  assumes a: "list_all is_digit a" and b: "list_all is_digit b" "length b = 2"
    and c: "list_all is_digit c" "length c = 4"
  shows "matches_reference_pattern (a @ CHR ''/'' # b @ CHR ''/'' # c) \<longleftrightarrow> length a = 3"
proof -
  consider "length a < 3" | "length a = 3" | "3 < length a" by linarith
  then show ?thesis
  proof cases
    case 1
    with a show ?thesis by (simp add: matches_reference_pattern_def digits_short)
  next
    case 2
    from b have "digits 2 (b @ CHR ''/'' # c) = Some (CHR ''/'' # c)"
      by (simp add: digits_prefix)
    moreover from c have "digits 4 c = Some []"
      using digits_prefix [of c 4 "[]"] by simp
    moreover from a 2 have "digits 3 (a @ CHR ''/'' # b @ CHR ''/'' # c) = Some (CHR ''/'' # b @ CHR ''/'' # c)"
      by (simp add: digits_prefix)
    ultimately show ?thesis using 2 by (simp add: matches_reference_pattern_def)
  next
    case 3
    with a have "digits 3 (a @ CHR ''/'' # b @ CHR ''/'' # c)
                 = Some (drop 3 a @ CHR ''/'' # b @ CHR ''/'' # c)"
      by (simp add: digits_prefix)
    moreover from a 3 have "lit (CHR ''/'') (drop 3 a @ CHR ''/'' # b @ CHR ''/'' # c) = None"
      by (intro lit_slash_digit) (auto simp: list_all_iff dest: in_set_dropD)
    ultimately show ?thesis using 3 by (simp add: matches_reference_pattern_def)
  qed
qed

lemma length_formattedCount:
  "length (padStart 3 (CHR ''0'') (nat_dec n)) = 3 \<longleftrightarrow> n \<le> 999"
proof (cases "n \<le> 999")
  case True
  then have "length (nat_dec n) \<le> 3" by (intro length_nat_dec_le) simp_all
  with True show ?thesis by (simp add: padStart_def)
next
  case False
  then have "3 < length (nat_dec n)" by (intro length_nat_dec_gt) simp
  with False show ?thesis by (simp add: padStart_def)
qed

lemma length_month: "m \<le> 12 \<Longrightarrow> length (toLocaleString_month m) = 2"
proof -
  assume "m \<le> 12"
  then have "length (nat_dec m) \<le> 2" by (intro length_nat_dec_le) simp_all
  then show ?thesis by (simp add: toLocaleString_month_def padStart_def)
qed

lemma length_year: "1000 \<le> y \<Longrightarrow> y \<le> 9999 \<Longrightarrow> length (nat_dec y) = 4"
proof -
  assume y: "1000 \<le> y" "y \<le> 9999"
  then have "length (nat_dec y) \<le> 4" by (intro length_nat_dec_le) simp_all
  moreover from y have "3 < length (nat_dec y)" by (intro length_nat_dec_gt) simp
  ultimately show ?thesis by simp
qed


text \<open>
  Claim C1. Requests are served in sequence from a store whose reference counter is not
  negative. The count portions of the reference numbers returned, read as numbers, are the
  consecutive integers that follow the counter's value: each successful call returns one
  more than the call before it, whatever other requests and failed calls lie between.
  With no counter document the value is 0, so the first number is 1; two successful calls
  on such a store return \<^verbatim>\<open>001/MM/YYYY\<close> and \<^verbatim>\<open>002/MM/YYYY\<close> for the month and year
  of each call.
\<close>

theorem reference_numbers_count_up:
  assumes "0 \<le> current_count s" and "run lib rs s = (resps, s')"
  shows "reference_counts resps
           = [current_count s + 1 .. current_count s + int (length (filter generates rs))]
         \<and> (references s = [] \<longrightarrow> current_count s = 0)
         \<and> (references s = [] \<and> storeUp e1 \<and> storeUp e2 \<longrightarrow>
              fst (run lib [(e1, PostReference), (e2, PostReference)] s)
                = [Response 200 (ReferenceBody
                     (''001/'' @ toLocaleString_month (month e1) @ ''/'' @ js_String (fullYear e1))),
                   Response 200 (ReferenceBody
                     (''002/'' @ toLocaleString_month (month e2) @ ''/'' @ js_String (fullYear e2)))])"
proof (intro conjI impI)
  show "reference_counts resps
          = [current_count s + 1 .. current_count s + int (length (filter generates rs))]"
    using run_reference_counts [OF assms] by simp
next
  assume "references s = []"
  then show "current_count s = 0" by (simp add: current_count_def findOne_def)
next
  assume h: "references s = [] \<and> storeUp e1 \<and> storeUp e2"
  then have c0: "current_count s = 0" by (simp add: current_count_def findOne_def)
  have p1: "padStart 3 (CHR ''0'') (js_String 1) = ''001''" by code_simp
  have p2: "padStart 3 (CHR ''0'') (js_String 2) = ''002''" by code_simp
  from h post_reference_up [of e1 s] c0 p1 obtain s1 where
    r1: "post_reference e1 s = (Response 200 (ReferenceBody
           (''001/'' @ toLocaleString_month (month e1) @ ''/'' @ js_String (fullYear e1))), s1)"
    and s1: "references s1 = [\<lparr>count = 1\<rparr>]"
    by auto
  from s1 have c1: "current_count s1 = 1" by (simp add: current_count_def findOne_def)
  from h post_reference_up [of e2 s1] c1 p2 obtain s2 where
    r2: "post_reference e2 s1 = (Response 200 (ReferenceBody
           (''002/'' @ toLocaleString_month (month e2) @ ''/'' @ js_String (fullYear e2))), s2)"
    by auto
  from r1 r2 show "fst (run lib [(e1, PostReference), (e2, PostReference)] s)
                = [Response 200 (ReferenceBody
                     (''001/'' @ toLocaleString_month (month e1) @ ''/'' @ js_String (fullYear e1))),
                   Response 200 (ReferenceBody
                     (''002/'' @ toLocaleString_month (month e2) @ ''/'' @ js_String (fullYear e2)))]"
    by simp
qed

theorem reference_numbers_count_up_witness:
  "0 \<le> current_count empty_db
   \<and> reference_counts (fst (run sample_bcrypt
        [(sample_env, PostReference), (sample_env\<lparr>storeUp := False\<rparr>, PostReference),
         (sample_env, GetJobs), (sample_env, PostReference)] empty_db)) = [1, 2]
   \<and> references empty_db = [] \<and> storeUp sample_env
   \<and> fst (run sample_bcrypt [(sample_env, PostReference), (sample_env, PostReference)] empty_db)
       = [Response 200 (ReferenceBody ''001/11/2023''),
          Response 200 (ReferenceBody ''002/11/2023'')]"
proof -
  let ?rs = "[(sample_env, PostReference), (sample_env\<lparr>storeUp := False\<rparr>, PostReference),
              (sample_env, GetJobs), (sample_env, PostReference)]"
  have h: "0 \<le> current_count empty_db" by code_simp
  have r: "run sample_bcrypt ?rs empty_db
           = (fst (run sample_bcrypt ?rs empty_db), snd (run sample_bcrypt ?rs empty_db))"
    by simp
  have u: "[current_count empty_db + 1
             .. current_count empty_db + int (length (filter generates ?rs))] = [1, 2]"
    by code_simp
  have e: "references empty_db = []" "storeUp sample_env" by code_simp+
  have m1: "''001/'' @ toLocaleString_month (month sample_env) @ ''/''
              @ js_String (fullYear sample_env) = ''001/11/2023''" by code_simp
  have m2: "''002/'' @ toLocaleString_month (month sample_env) @ ''/''
              @ js_String (fullYear sample_env) = ''002/11/2023''" by code_simp
  note t = reference_numbers_count_up [OF h r, of sample_env sample_env]
  from t have a: "reference_counts (fst (run sample_bcrypt ?rs empty_db))
                  = [current_count empty_db + 1
                     .. current_count empty_db + int (length (filter generates ?rs))]"
    by (rule conjunct1)
  from t e have b: "fst (run sample_bcrypt [(sample_env, PostReference), (sample_env, PostReference)]
                      empty_db)
                = [Response 200 (ReferenceBody
                     (''001/'' @ toLocaleString_month (month sample_env) @ ''/''
                        @ js_String (fullYear sample_env))),
                   Response 200 (ReferenceBody
                     (''002/'' @ toLocaleString_month (month sample_env) @ ''/''
                        @ js_String (fullYear sample_env)))]"
    by blast
  from h a [unfolded u] e b [unfolded m1 m2] show ?thesis by blast
qed

text \<open>
  Claim C5, as stated, fails: \<^verbatim>\<open>padStart(3, "0")\<close> pads and never truncates, so a counter
  at 999 yields a count portion of four digits.
\<close>

theorem reference_format_counterexample:
  "post_reference sample_env (empty_db\<lparr>references := [\<lparr>count = 999\<rparr>]\<rparr>)
     = (Response 200 (ReferenceBody ''1000/11/2023''), empty_db\<lparr>references := [\<lparr>count = 1000\<rparr>]\<rparr>)
   \<and> \<not> matches_reference_pattern ''1000/11/2023''"
  by code_simp

text \<open>
  Claim C5, amended. For a successful generation at a well-formed calendar date (a month
  of the year, a four-digit year) on a counter that is not negative, the returned string
  matches \<^verbatim>\<open>\d{3}/\d{2}/\d{4}\<close> exactly when the new count is at most 999.
\<close>

theorem reference_format_iff:
  assumes "storeUp e" and "calendar_ok e" and "0 \<le> current_count s"
  shows "\<exists>n s'. post_reference e s = (Response 200 (ReferenceBody n), s')
           \<and> (matches_reference_pattern n \<longleftrightarrow> current_count s + 1 \<le> 999)"
proof -
  let ?a = "padStart 3 (CHR ''0'') (nat_dec (nat (current_count s + 1)))"
  let ?b = "toLocaleString_month (month e)"
  let ?c = "nat_dec (nat (fullYear e))"
  from assms have js: "js_String (current_count s + 1) = nat_dec (nat (current_count s + 1))"
    "js_String (fullYear e) = ?c"
    by (simp_all add: js_String_def calendar_ok_def)
  from post_reference_up [OF assms(1), of s] js obtain s' where
    p: "post_reference e s = (Response 200 (ReferenceBody (?a @ CHR ''/'' # ?b @ CHR ''/'' # ?c)), s')"
    by auto
  have a: "list_all is_digit ?a" by (intro list_all_pad nat_dec_digits)
  have b: "list_all is_digit ?b" "length ?b = 2"
    using assms(2) by (simp_all add: toLocaleString_month_def list_all_pad nat_dec_digits
        length_month [unfolded toLocaleString_month_def] calendar_ok_def)
  from assms(2) have "1000 \<le> nat (fullYear e)" "nat (fullYear e) \<le> 9999"
    unfolding calendar_ok_def by linarith+
  then have c: "list_all is_digit ?c" "length ?c = 4"
    by (simp_all add: nat_dec_digits length_year)
  have "matches_reference_pattern (?a @ CHR ''/'' # ?b @ CHR ''/'' # ?c) \<longleftrightarrow> length ?a = 3"
    by (rule matches_iff [OF a b c])
  also have "\<dots> \<longleftrightarrow> nat (current_count s + 1) \<le> 999" by (rule length_formattedCount)
  also have "\<dots> \<longleftrightarrow> current_count s + 1 \<le> 999" using assms(3) by auto
  finally show ?thesis using p by blast
qed


theorem reference_format_iff_witness:
  "storeUp sample_env \<and> calendar_ok sample_env \<and> 0 \<le> current_count empty_db
   \<and> post_reference sample_env empty_db
       = (Response 200 (ReferenceBody ''001/11/2023''), empty_db\<lparr>references := [\<lparr>count = 1\<rparr>]\<rparr>)
   \<and> matches_reference_pattern ''001/11/2023''"
proof -
  have h: "storeUp sample_env" "calendar_ok sample_env" "0 \<le> current_count empty_db"
    by code_simp+
  have p: "post_reference sample_env empty_db
       = (Response 200 (ReferenceBody ''001/11/2023''), empty_db\<lparr>references := [\<lparr>count = 1\<rparr>]\<rparr>)"
    by code_simp
  have c: "current_count empty_db + 1 \<le> 999" by code_simp
  from reference_format_iff [OF h] p c h show ?thesis by simp
qed

section \<open>The reference counter as a singleton\<close>

lemma handle_references:
  assumes "handle lib e req s = (resp, s')"
  shows "references s' =
           (if generates (e, req)
            then (case references s of [] \<Rightarrow> [\<lparr>count = 1\<rparr>] | r # rs \<Rightarrow> r\<lparr>count := count r + 1\<rparr> # rs)
            else references s)"
proof (cases "req = PostReference")
  case True
  show ?thesis
  proof (cases "storeUp e")
    case up: True
    from post_reference_up [OF up, of s] assms True up show ?thesis
      by (auto simp: generates_def)
  next
    case False
    from post_reference_down [OF False, of s] assms True False show ?thesis
      by (auto simp: generates_def)
  qed
next
  case False
  from other_routes_references [OF False assms] False show ?thesis
    by (simp add: generates_def)
qed

lemma handle_reference_inv:
  assumes "handle lib e req s = (resp, s')" and "reference_inv s"
  shows "reference_inv s' \<and> length (references s) \<le> length (references s')
         \<and> current_count s \<le> current_count s'
         \<and> (generates (e, req) \<longrightarrow> length (references s') = 1)"
  using handle_references [OF assms(1)] assms(2)
  by (cases "references s")
     (auto simp: reference_inv_def current_count_def findOne_def)

lemma run_reference_inv:
  assumes "reference_inv s" and "run lib rs s = (resps, s')"
  shows "reference_inv s' \<and> length (references s) \<le> length (references s')
         \<and> ((\<exists>x \<in> set rs. generates x) \<longrightarrow> length (references s') = 1)"
  using assms
proof (induction rs arbitrary: s resps)
  case Nil
  then show ?case by simp
next
  case (Cons x rs)
  obtain e r where x: "x = (e, r)" by (cases x)
  obtain resp s1 where h: "handle lib e r s = (resp, s1)" by (cases "handle lib e r s")
  obtain resps1 s2 where t: "run lib rs s1 = (resps1, s2)" by (cases "run lib rs s1")
  from Cons.prems x h t have "s' = s2" by simp
  with t have t': "run lib rs s1 = (resps1, s')" by simp
  note st = handle_reference_inv [OF h Cons.prems(1)]
  then have i1: "reference_inv s1" by simp
  note ih = Cons.IH [OF i1 t']
  from ih have le1: "length (references s') \<le> 1" by (simp add: reference_inv_def)
  from st ih le1 x show ?case by auto
qed

text \<open>
  Claim C7. In every store reached from the empty one by serving requests in sequence, the
  reference collection holds at most one document and its count is at least 1; once a
  reference number has been generated it holds exactly one. Every request leaves the
  number of documents and the counter's value no smaller than before (nothing is
  deleted), and a successful generation creates the document with count 1 when there is
  none and otherwise adds exactly 1 to its count.
\<close>

theorem reference_counter_invariant:
  assumes "run lib rs empty_db = (resps, s)" and "handle lib e req s = (resp, s')"
  shows "reference_inv s
         \<and> ((\<exists>x \<in> set rs. generates x) \<longrightarrow> length (references s) = 1)
         \<and> reference_inv s'
         \<and> length (references s) \<le> length (references s')
         \<and> current_count s \<le> current_count s'
         \<and> (generates (e, req) \<longrightarrow>
              length (references s') = 1 \<and> current_count s' = current_count s + 1
              \<and> (references s = [] \<longrightarrow> references s' = [\<lparr>count = 1\<rparr>])
              \<and> (\<forall>r. references s = [r] \<longrightarrow> references s' = [\<lparr>count = count r + 1\<rparr>]))"
proof -
  have "reference_inv empty_db" by (simp add: reference_inv_def empty_db_def)
  from run_reference_inv [OF this assms(1)]
  have inv: "reference_inv s"
    and one: "(\<exists>x \<in> set rs. generates x) \<longrightarrow> length (references s) = 1"
    by simp_all
  note st = handle_reference_inv [OF assms(2) inv]
  note rf = handle_references [OF assms(2)]
  have "generates (e, req) \<longrightarrow>
          current_count s' = current_count s + 1
          \<and> (references s = [] \<longrightarrow> references s' = [\<lparr>count = 1\<rparr>])
          \<and> (\<forall>r. references s = [r] \<longrightarrow> references s' = [\<lparr>count = count r + 1\<rparr>])"
    using rf by (cases "references s") (auto simp: current_count_def findOne_def)
  with inv one st show ?thesis by blast
qed

theorem reference_counter_invariant_witness:
  "run sample_bcrypt [(sample_env, PostReference), (sample_env, GetVisitorCount)] empty_db
     = ([Response 200 (ReferenceBody ''001/11/2023''), Response 200 (VisitorBody 905)],
        empty_db\<lparr>references := [\<lparr>count = 1\<rparr>],
                 visitors := [\<lparr>v_count = 905, lastUpdated = 1700000000000\<rparr>]\<rparr>)
   \<and> (\<exists>x \<in> set [(sample_env, PostReference), (sample_env, GetVisitorCount)]. generates x)
   \<and> generates (sample_env, PostReference)
   \<and> references (snd (handle sample_bcrypt sample_env PostReference
        (empty_db\<lparr>references := [\<lparr>count = 1\<rparr>],
                  visitors := [\<lparr>v_count = 905, lastUpdated = 1700000000000\<rparr>]\<rparr>)))
       = [\<lparr>count = 2\<rparr>]"
proof -
  let ?s = "empty_db\<lparr>references := [\<lparr>count = 1\<rparr>],
                     visitors := [\<lparr>v_count = 905, lastUpdated = 1700000000000\<rparr>]\<rparr>"
  have r: "run sample_bcrypt [(sample_env, PostReference), (sample_env, GetVisitorCount)] empty_db
     = ([Response 200 (ReferenceBody ''001/11/2023''), Response 200 (VisitorBody 905)], ?s)"
    by code_simp
  have h: "handle sample_bcrypt sample_env PostReference ?s
           = (fst (handle sample_bcrypt sample_env PostReference ?s),
              snd (handle sample_bcrypt sample_env PostReference ?s))"
    by simp
  have g: "generates (sample_env, PostReference)" by code_simp
  then have x: "\<exists>x \<in> set [(sample_env, PostReference), (sample_env, GetVisitorCount)]. generates x"
    by simp
  have s: "references ?s = [\<lparr>count = 1\<rparr>]" by code_simp
  from reference_counter_invariant [OF r h] g s
  have "references (snd (handle sample_bcrypt sample_env PostReference ?s))
        = [\<lparr>count = count \<lparr>count = 1\<rparr> + 1\<rparr>]"
    by blast
  then have "references (snd (handle sample_bcrypt sample_env PostReference ?s)) = [\<lparr>count = 2\<rparr>]"
    by simp
  with r x g show ?thesis by blast
qed

section \<open>The visitor counter, read by read\<close>

lemma get_visitorCount_absent:
  assumes "storeUp e" and "visitors s = []"
  shows "get_visitorCount e s
         = (Response 200 (VisitorBody 905),
            s\<lparr>visitors := [\<lparr>v_count = 905, lastUpdated = now e\<rparr>]\<rparr>)"
  using assms by (simp add: get_visitorCount_def findOne_def save_new_def Let_def)

lemma get_visitorCount_due:
  assumes "storeUp e" and "visitors s = v # vs" and "3600000 \<le> now e - lastUpdated v"
  shows "get_visitorCount e s
         = (Response 200 (VisitorBody (v_count v + 1)),
            s\<lparr>visitors := v\<lparr>v_count := v_count v + 1, lastUpdated := now e\<rparr> # vs\<rparr>)"
  using assms by (simp add: get_visitorCount_def findOne_def save_found_def Let_def)

lemma get_visitorCount_early:
  assumes "storeUp e" and "visitors s = v # vs" and "now e - lastUpdated v < 3600000"
  shows "get_visitorCount e s = (Response 200 (VisitorBody (v_count v)), s)"
  using assms by (simp add: get_visitorCount_def findOne_def Let_def)

lemma first_read:
  assumes "storeUp e" and "get_visitorCount e s = (r, s1)"
  shows "\<exists>v1 vs. visitors s1 = v1 # vs \<and> r = Response 200 (VisitorBody (v_count v1))
           \<and> (resets e s \<longrightarrow> lastUpdated v1 = now e)
           \<and> (not_ahead e s \<longrightarrow> lastUpdated v1 \<le> now e)"
proof (cases "visitors s")
  case Nil
  from get_visitorCount_absent [OF assms(1) Nil] assms(2) show ?thesis by auto
next
  case (Cons v vs)
  show ?thesis
  proof (cases "3600000 \<le> now e - lastUpdated v")
    case True
    from get_visitorCount_due [OF assms(1) Cons True] assms(2) show ?thesis by auto
  next
    case False
    then have "now e - lastUpdated v < 3600000" by simp
    from get_visitorCount_early [OF assms(1) Cons this] assms(2) Cons False show ?thesis
      by (auto simp: resets_def not_ahead_def findOne_def)
  qed
qed

text \<open>The route of the earlier variant, on its two variables, computes what the route on
  the stored document computes.\<close>

lemma get_visitorCount_vars_agrees:
  assumes "storeUp e" and "visitors s = v # vs"
    and "get_visitorCount_vars (now e) \<lparr>visitorCount = v_count v, lastIncrementTime = lastUpdated v\<rparr>
         = (c, m')"
  shows "get_visitorCount e s
         = (Response 200 (VisitorBody c),
            s\<lparr>visitors := \<lparr>v_count = visitorCount m', lastUpdated = lastIncrementTime m'\<rparr> # vs\<rparr>)"
proof (cases "3600000 \<le> now e - lastUpdated v")
  case True
  from get_visitorCount_due [OF assms(1,2) True] assms(3) True show ?thesis
    by (auto simp: get_visitorCount_vars_def)
next
  case False
  then have "now e - lastUpdated v < 3600000" by simp
  from get_visitorCount_early [OF assms(1,2) this] assms(2,3) False show ?thesis
    by (auto simp: get_visitorCount_vars_def)
qed

text \<open>
  Claim C2. A visitor-count read that the store serves: with no visitor document, one is
  created with count 905 and \<^verbatim>\<open>lastUpdated\<close> set to the time of the request; with a document
  whose \<^verbatim>\<open>lastUpdated\<close> lies at least 3600 seconds back, the count is incremented by 1,
  \<^verbatim>\<open>lastUpdated\<close> is set to the time of the request and the document is written back;
  otherwise the store is unchanged. In each case the response carries the count of the
  stored document, and no other collection changes.
\<close>

theorem visitor_count_read:
  assumes "storeUp e" and "get_visitorCount e s = (resp, s')"
  shows "(visitors s = [] \<longrightarrow>
            visitors s' = [\<lparr>v_count = 905, lastUpdated = now e\<rparr>]
            \<and> resp = Response 200 (VisitorBody 905))
         \<and> (\<forall>v vs. visitors s = v # vs \<and> 3600 * 1000 \<le> now e - lastUpdated v \<longrightarrow>
                visitors s' = v\<lparr>v_count := v_count v + 1, lastUpdated := now e\<rparr> # vs
                \<and> resp = Response 200 (VisitorBody (v_count v + 1)))
         \<and> (\<forall>v vs. visitors s = v # vs \<and> now e - lastUpdated v < 3600 * 1000 \<longrightarrow>
                s' = s \<and> resp = Response 200 (VisitorBody (v_count v)))
         \<and> (\<exists>v vs. visitors s' = v # vs \<and> resp = Response 200 (VisitorBody (v_count v)))
         \<and> references s' = references s \<and> jobs s' = jobs s \<and> users s' = users s"
proof (cases "visitors s")
  case Nil
  from get_visitorCount_absent [OF assms(1) Nil] assms(2) Nil show ?thesis by auto
next
  case (Cons v vs)
  show ?thesis
  proof (cases "3600000 \<le> now e - lastUpdated v")
    case True
    from get_visitorCount_due [OF assms(1) Cons True] assms(2) Cons True show ?thesis by auto
  next
    case False
    then have "now e - lastUpdated v < 3600000" by simp
    from get_visitorCount_early [OF assms(1) Cons this] assms(2) Cons False show ?thesis by auto
  qed
qed

theorem visitor_count_read_witness:
  "storeUp sample_env \<and> visitors empty_db = []
   \<and> get_visitorCount sample_env empty_db
       = (Response 200 (VisitorBody 905),
          empty_db\<lparr>visitors := [\<lparr>v_count = 905, lastUpdated = 1700000000000\<rparr>]\<rparr>)
   \<and> visitors (empty_db\<lparr>visitors := [\<lparr>v_count = 905, lastUpdated = 1700000000000\<rparr>]\<rparr>)
       = [\<lparr>v_count = 905, lastUpdated = now sample_env\<rparr>]
   \<and> storeUp (sample_env\<lparr>now := 1700003600000\<rparr>)
   \<and> 3600 * 1000 \<le> now (sample_env\<lparr>now := 1700003600000\<rparr>) - 1700000000000
   \<and> get_visitorCount (sample_env\<lparr>now := 1700003600000\<rparr>)
        (empty_db\<lparr>visitors := [\<lparr>v_count = 905, lastUpdated = 1700000000000\<rparr>]\<rparr>)
       = (Response 200 (VisitorBody 906),
          empty_db\<lparr>visitors := [\<lparr>v_count = 906, lastUpdated = 1700003600000\<rparr>]\<rparr>)
   \<and> storeUp (sample_env\<lparr>now := 1700003599999\<rparr>)
   \<and> now (sample_env\<lparr>now := 1700003599999\<rparr>) - 1700000000000 < 3600 * 1000
   \<and> get_visitorCount (sample_env\<lparr>now := 1700003599999\<rparr>)
        (empty_db\<lparr>visitors := [\<lparr>v_count = 905, lastUpdated = 1700000000000\<rparr>]\<rparr>)
       = (Response 200 (VisitorBody 905),
          empty_db\<lparr>visitors := [\<lparr>v_count = 905, lastUpdated = 1700000000000\<rparr>]\<rparr>)"
proof -
  let ?v = "\<lparr>v_count = 905, lastUpdated = 1700000000000\<rparr>"
  let ?s = "empty_db\<lparr>visitors := [?v]\<rparr>"
  let ?late = "sample_env\<lparr>now := 1700003600000\<rparr>"
  let ?soon = "sample_env\<lparr>now := 1700003599999\<rparr>"
  have u: "storeUp sample_env" "storeUp ?late" "storeUp ?soon" by code_simp+
  have n: "visitors empty_db = []" by code_simp
  have v: "visitors ?s = ?v # []" by code_simp
  have d: "3600 * 1000 \<le> now ?late - lastUpdated ?v" by code_simp
  have e: "now ?soon - lastUpdated ?v < 3600 * 1000" by code_simp
  have g1: "get_visitorCount sample_env empty_db
            = (fst (get_visitorCount sample_env empty_db), snd (get_visitorCount sample_env empty_db))"
    by simp
  have g2: "get_visitorCount ?late ?s
            = (fst (get_visitorCount ?late ?s), snd (get_visitorCount ?late ?s))"
    by simp
  have g3: "get_visitorCount ?soon ?s
            = (fst (get_visitorCount ?soon ?s), snd (get_visitorCount ?soon ?s))"
    by simp
  from visitor_count_read [OF u(1) g1] n
  have a1: "visitors (snd (get_visitorCount sample_env empty_db))
              = [\<lparr>v_count = 905, lastUpdated = now sample_env\<rparr>]"
    and b1: "fst (get_visitorCount sample_env empty_db) = Response 200 (VisitorBody 905)"
    by blast+
  from visitor_count_read [OF u(2) g2] v d
  have b2: "fst (get_visitorCount ?late ?s) = Response 200 (VisitorBody (v_count ?v + 1))"
    by blast
  from visitor_count_read [OF u(3) g3] v e
  have a3: "snd (get_visitorCount ?soon ?s) = ?s"
    and b3: "fst (get_visitorCount ?soon ?s) = Response 200 (VisitorBody (v_count ?v))"
    by blast+
  have c1: "get_visitorCount sample_env empty_db = (Response 200 (VisitorBody 905), ?s)"
    by code_simp
  have c2: "get_visitorCount ?late ?s
            = (Response 200 (VisitorBody 906),
               empty_db\<lparr>visitors := [\<lparr>v_count = 906, lastUpdated = 1700003600000\<rparr>]\<rparr>)"
    by code_simp
  have c3: "get_visitorCount ?soon ?s = (Response 200 (VisitorBody 905), ?s)"
    using a3 b3 by (simp add: prod_eq_iff)
  have w: "visitors ?s = [\<lparr>v_count = 905, lastUpdated = now sample_env\<rparr>]"
    using a1 c1 by simp
  from d e have d': "3600 * 1000 \<le> now ?late - 1700000000000"
    and e': "now ?soon - 1700000000000 < 3600 * 1000"
    by simp_all
  from u n c1 w d' c2 e' c3 show ?thesis by blast
qed

text \<open>
  Claim C6, as stated, fails in its first half: the gate compares the time of a read with
  \<^verbatim>\<open>lastUpdated\<close>, not with the time of the read before. With \<^verbatim>\<open>lastUpdated\<close> at 0, a read
  at minute 59 returns 905 and a read at minute 61, two minutes later, returns 906.
\<close>

theorem visitor_reads_counterexample:
  "now (sample_env\<lparr>now := 3660000\<rparr>) - now (sample_env\<lparr>now := 3540000\<rparr>) < 3600000
   \<and> get_visitorCount (sample_env\<lparr>now := 3540000\<rparr>)
        (empty_db\<lparr>visitors := [\<lparr>v_count = 905, lastUpdated = 0\<rparr>]\<rparr>)
       = (Response 200 (VisitorBody 905),
          empty_db\<lparr>visitors := [\<lparr>v_count = 905, lastUpdated = 0\<rparr>]\<rparr>)
   \<and> fst (get_visitorCount (sample_env\<lparr>now := 3660000\<rparr>)
        (empty_db\<lparr>visitors := [\<lparr>v_count = 905, lastUpdated = 0\<rparr>]\<rparr>))
       = Response 200 (VisitorBody 906)"
  by code_simp

text \<open>
  Claim C6, amended. Two successive reads that the store serves return counts that are
  equal or differ by exactly 1, and they are equal exactly when the second read comes
  less than one hour after \<^verbatim>\<open>lastUpdated\<close> as the first read left it. So two reads less
  than one hour apart return equal counts when the first one created the document or
  incremented the count; and two reads at least one hour apart, on a store whose
  \<^verbatim>\<open>lastUpdated\<close> is not later than the first read, return counts that differ by exactly 1.
\<close>

theorem visitor_reads_gated:
  assumes "storeUp e1" and "storeUp e2"
    and "get_visitorCount e1 s = (r1, s1)" and "get_visitorCount e2 s1 = (r2, s2)"
  shows "\<exists>c1 c2 v1 vs.
           r1 = Response 200 (VisitorBody c1) \<and> r2 = Response 200 (VisitorBody c2)
           \<and> visitors s1 = v1 # vs
           \<and> (c2 = c1 \<or> c2 = c1 + 1)
           \<and> (c2 = c1 \<longleftrightarrow> now e2 - lastUpdated v1 < 3600000)
           \<and> (resets e1 s \<and> now e2 - now e1 < 3600000 \<longrightarrow> c2 = c1)
           \<and> (not_ahead e1 s \<and> 3600000 \<le> now e2 - now e1 \<longrightarrow> c2 = c1 + 1)"
proof -
  from first_read [OF assms(1) assms(3)] obtain v1 vs where
    s1: "visitors s1 = v1 # vs" and r1: "r1 = Response 200 (VisitorBody (v_count v1))"
    and last_reset: "resets e1 s \<longrightarrow> lastUpdated v1 = now e1"
    and last_le: "not_ahead e1 s \<longrightarrow> lastUpdated v1 \<le> now e1"
    by blast
  show ?thesis
  proof (cases "3600000 \<le> now e2 - lastUpdated v1")
    case True
    from get_visitorCount_due [OF assms(2) s1 True] assms(4)
    have "r2 = Response 200 (VisitorBody (v_count v1 + 1))" by simp
    with r1 s1 True last_reset last_le show ?thesis by auto
  next
    case False
    then have lt: "now e2 - lastUpdated v1 < 3600000" by simp
    from get_visitorCount_early [OF assms(2) s1 lt] assms(4)
    have "r2 = Response 200 (VisitorBody (v_count v1))" by simp
    with r1 s1 lt last_reset last_le show ?thesis by auto
  qed
qed

theorem visitor_reads_gated_witness:
  "storeUp sample_env \<and> storeUp (sample_env\<lparr>now := 1700003600000\<rparr>)
   \<and> storeUp (sample_env\<lparr>now := 1700003599999\<rparr>)
   \<and> resets sample_env empty_db \<and> not_ahead sample_env empty_db
   \<and> get_visitorCount sample_env empty_db
       = (Response 200 (VisitorBody 905),
          empty_db\<lparr>visitors := [\<lparr>v_count = 905, lastUpdated = 1700000000000\<rparr>]\<rparr>)
   \<and> 3600000 \<le> now (sample_env\<lparr>now := 1700003600000\<rparr>) - now sample_env
   \<and> fst (get_visitorCount (sample_env\<lparr>now := 1700003600000\<rparr>)
        (empty_db\<lparr>visitors := [\<lparr>v_count = 905, lastUpdated = 1700000000000\<rparr>]\<rparr>))
       = Response 200 (VisitorBody 906)
   \<and> now (sample_env\<lparr>now := 1700003599999\<rparr>) - now sample_env < 3600000
   \<and> fst (get_visitorCount (sample_env\<lparr>now := 1700003599999\<rparr>)
        (empty_db\<lparr>visitors := [\<lparr>v_count = 905, lastUpdated = 1700000000000\<rparr>]\<rparr>))
       = Response 200 (VisitorBody 905)"
proof -
  let ?s = "empty_db\<lparr>visitors := [\<lparr>v_count = 905, lastUpdated = 1700000000000\<rparr>]\<rparr>"
  let ?late = "sample_env\<lparr>now := 1700003600000\<rparr>"
  let ?soon = "sample_env\<lparr>now := 1700003599999\<rparr>"
  have u: "storeUp sample_env" "storeUp ?late" "storeUp ?soon" by code_simp+
  have h: "resets sample_env empty_db" "not_ahead sample_env empty_db" by code_simp+
  have far: "3600000 \<le> now ?late - now sample_env" by code_simp
  have near: "now ?soon - now sample_env < 3600000" by code_simp
  have g1: "get_visitorCount sample_env empty_db = (Response 200 (VisitorBody 905), ?s)"
    by code_simp
  have g2: "get_visitorCount ?late ?s
            = (fst (get_visitorCount ?late ?s), snd (get_visitorCount ?late ?s))"
    by simp
  have g3: "get_visitorCount ?soon ?s
            = (fst (get_visitorCount ?soon ?s), snd (get_visitorCount ?soon ?s))"
    by simp
  from visitor_reads_gated [OF u(1) u(2) g1 g2] h far
  have "\<exists>c1 c2. Response 200 (VisitorBody 905) = Response 200 (VisitorBody c1)
          \<and> fst (get_visitorCount ?late ?s) = Response 200 (VisitorBody c2) \<and> c2 = c1 + 1"
    by blast
  then have l: "fst (get_visitorCount ?late ?s) = Response 200 (VisitorBody 906)" by auto
  from visitor_reads_gated [OF u(1) u(3) g1 g3] h near
  have "\<exists>c1 c2. Response 200 (VisitorBody 905) = Response 200 (VisitorBody c1)
          \<and> fst (get_visitorCount ?soon ?s) = Response 200 (VisitorBody c2) \<and> c2 = c1"
    by blast
  then have m: "fst (get_visitorCount ?soon ?s) = Response 200 (VisitorBody 905)" by auto
  from u h g1 far l near m show ?thesis by blast
qed

section \<open>Users\<close>

lemma findByUsername_None: "findByUsername n us = None \<longleftrightarrow> n \<notin> set (map username us)"
  by (induction us) auto




lemma handle_users:
  assumes "handle lib e req s = (resp, s')"
  shows "\<exists>ext. users s' = users s @ ext"
proof (cases "req = PostReference")
  case True
  show ?thesis
  proof (cases "storeUp e")
    case up: True
    from post_reference_up [OF up, of s] assms True show ?thesis by auto
  next
    case False
    from post_reference_down [OF False, of s] assms True show ?thesis by auto
  qed
next
  case False
  with assms show ?thesis
    by (cases req)
       (auto simp: post_job_def get_jobs_def put_job_def delete_job_def register_def login_def
          get_visitorCount_def Let_def save_new_def
          split: if_splits option.splits id_param.splits prod.splits)
qed

lemma run_users:
  assumes "run lib rs s = (resps, s')"
  shows "\<exists>ext. users s' = users s @ ext"
  using assms
proof (induction rs arbitrary: s resps)
  case Nil
  then show ?case by simp
next
  case (Cons x rs)
  obtain e r where x: "x = (e, r)" by (cases x)
  obtain resp s1 where h: "handle lib e r s = (resp, s1)" by (cases "handle lib e r s")
  obtain resps1 s2 where t: "run lib rs s1 = (resps1, s2)" by (cases "run lib rs s1")
  from Cons.prems x h t have "s' = s2" by simp
  with t Cons.IH obtain m2 where "users s' = users s1 @ m2" by blast
  moreover from handle_users [OF h] obtain m1 where "users s1 = users s @ m1" by blast
  ultimately show ?case by simp
qed

lemma register_duplicate:
  "req_username c \<in> set (map username (users s)) \<Longrightarrow>
   register lib e c s = (Response 500 (ErrorBody ''Error registering user''), s)"
  by (simp add: register_def Let_def split: option.splits)

lemma register_created:
  assumes "register lib e c s = (Response 201 b, s1)"
  shows "\<exists>p. req_password c = JString p
           \<and> users s1 = users s @ [\<lparr>username = req_username c,
                                       password = hash lib (salt e) p\<rparr>]
           \<and> req_username c \<notin> set (map username (users s))"
  using assms
  by (auto simp: register_def bcrypt_hash_def Let_def save_new_def
      split: if_splits option.splits jvalue.splits)



text \<open>
  Claim C3, as stated, fails in its second half: the second registration of a username
  does fail, but the route's only error response is the one of its \<^verbatim>\<open>catch\<close> block, with
  status 500, not 400.
\<close>

theorem duplicate_registration_counterexample:
  "register sample_bcrypt sample_env alice empty_db
     = (Response 201 (MessageBody ''User registered successfully''),
        empty_db\<lparr>users := [\<lparr>username = ''alice'', password = ''$secret''\<rparr>]\<rparr>)
   \<and> register sample_bcrypt sample_env alice
        (empty_db\<lparr>users := [\<lparr>username = ''alice'', password = ''$secret''\<rparr>]\<rparr>)
     = (Response 500 (ErrorBody ''Error registering user''),
        empty_db\<lparr>users := [\<lparr>username = ''alice'', password = ''$secret''\<rparr>]\<rparr>)
   \<and> status (Response 500 (ErrorBody ''Error registering user'')) \<noteq> 400"
  by code_simp

text \<open>
  Claim C3, amended. Once a username has been registered, every later registration of
  the same username, whatever requests were served in between, leaves the store
  unchanged and is answered with HTTP 500 and the generic message
  \<^verbatim>\<open>Error registering user\<close>.
\<close>

theorem duplicate_registration_rejected:
  assumes "register lib e c s = (Response 201 b, s1)" and "run lib rs s1 = (resps, s2)"
    and "req_username c' = req_username c"
  shows "register lib e' c' s2 = (Response 500 (ErrorBody ''Error registering user''), s2)
         \<and> status (fst (register lib e' c' s2)) = 500"
proof -
  from register_created [OF assms(1)] have "req_username c \<in> set (map username (users s1))"
    by auto
  moreover from run_users [OF assms(2)] obtain ext where "users s2 = users s1 @ ext" by blast
  ultimately have "req_username c' \<in> set (map username (users s2))" using assms(3) by simp
  from register_duplicate [OF this] show ?thesis by simp
qed

theorem duplicate_registration_rejected_witness:
  "register sample_bcrypt sample_env alice empty_db
     = (Response 201 (MessageBody ''User registered successfully''),
        empty_db\<lparr>users := [\<lparr>username = ''alice'', password = ''$secret''\<rparr>]\<rparr>)
   \<and> run sample_bcrypt [(sample_env, PostLogin alice)]
        (empty_db\<lparr>users := [\<lparr>username = ''alice'', password = ''$secret''\<rparr>]\<rparr>)
     = ([Response 200 (LoginBody ''Login successful'' ''alice'')],
        empty_db\<lparr>users := [\<lparr>username = ''alice'', password = ''$secret''\<rparr>]\<rparr>)
   \<and> req_username (alice\<lparr>req_password := JString ''other''\<rparr>) = req_username alice
   \<and> fst (register sample_bcrypt sample_env (alice\<lparr>req_password := JString ''other''\<rparr>)
        (empty_db\<lparr>users := [\<lparr>username = ''alice'', password = ''$secret''\<rparr>]\<rparr>))
     = Response 500 (ErrorBody ''Error registering user'')"
proof -
  let ?s1 = "empty_db\<lparr>users := [\<lparr>username = ''alice'', password = ''$secret''\<rparr>]\<rparr>"
  have a: "register sample_bcrypt sample_env alice empty_db
     = (Response 201 (MessageBody ''User registered successfully''), ?s1)"
    by code_simp
  have b: "run sample_bcrypt [(sample_env, PostLogin alice)] ?s1
     = ([Response 200 (LoginBody ''Login successful'' ''alice'')], ?s1)"
    by code_simp
  have c: "req_username (alice\<lparr>req_password := JString ''other''\<rparr>) = req_username alice"
    by simp
  from duplicate_registration_rejected [OF a b c, of sample_env] a b c show ?thesis by simp
qed




section \<open>Jobs\<close>






























end
